theory Spec2Isabelle
  imports Main "HOL-Library.Sublist" "HOL-Library.AList"
begin

section \<open>Python strings and exceptions\<close>

text \<open>
  A Python \<open>str\<close> is modelled as a \<open>string\<close>, a list of characters, each character read
  as the code point of the same number (0 to 255). Code points above 255 are outside the
  model. The functions below are the \<open>str\<close> methods that \<open>main.py\<close> and the URL parser of
  the standard library call.
\<close>

definition isspace :: "char \<Rightarrow> bool" where
  \<comment> \<open>\<open>str.isspace\<close> on one code point below 256: what \<open>str.strip()\<close> removes.\<close>
  "isspace c =
     (let n = (of_char c :: nat)
      in (9 \<le> n \<and> n \<le> 13) \<or> (28 \<le> n \<and> n \<le> 32) \<or> n = 133 \<or> n = 160)"

definition strip :: "string \<Rightarrow> string" where
  \<comment> \<open>\<open>s.strip()\<close>: leading and trailing whitespace removed.\<close>
  "strip s = rev (dropWhile isspace (rev (dropWhile isspace s)))"

definition lower_char :: "char \<Rightarrow> char" where
  \<comment> \<open>\<open>str.lower\<close> on one code point below 256: A-Z and the upper-case letters of
      Latin-1 (192 to 222 without the multiplication sign 215) move up by 32.\<close>
  "lower_char c =
     (let n = (of_char c :: nat)
      in if (65 \<le> n \<and> n \<le> 90) \<or> (192 \<le> n \<and> n \<le> 222 \<and> n \<noteq> 215)
         then char_of (n + 32) else c)"

definition lower :: "string \<Rightarrow> string" where
  "lower s = map lower_char s"

definition endswith :: "string \<Rightarrow> string \<Rightarrow> bool" where
  \<comment> \<open>\<open>s.endswith(suf)\<close>\<close>
  "endswith s suf = (length suf \<le> length s \<and> drop (length s - length suf) s = suf)"

definition startswith :: "string \<Rightarrow> string \<Rightarrow> bool" where
  "startswith s pre = (take (length pre) s = pre)"

definition before_first :: "char \<Rightarrow> string \<Rightarrow> string" where
  \<comment> \<open>\<open>s.partition(c)[0]\<close>\<close>
  "before_first c s = takeWhile (\<lambda>x. x \<noteq> c) s"

definition after_first :: "char \<Rightarrow> string \<Rightarrow> string" where
  \<comment> \<open>\<open>s.partition(c)[2]\<close>: empty when \<open>c\<close> does not occur.\<close>
  "after_first c s = drop 1 (dropWhile (\<lambda>x. x \<noteq> c) s)"

definition after_last :: "char \<Rightarrow> string \<Rightarrow> string" where
  \<comment> \<open>\<open>s.rpartition(c)[2]\<close>: the whole string when \<open>c\<close> does not occur.\<close>
  "after_last c s = rev (takeWhile (\<lambda>x. x \<noteq> c) (rev s))"

fun split_acc :: "char \<Rightarrow> string \<Rightarrow> string \<Rightarrow> string list" where
  "split_acc c cur [] = [rev cur]"
| "split_acc c cur (x # xs) =
     (if x = c then rev cur # split_acc c [] xs else split_acc c (x # cur) xs)"

definition split :: "char \<Rightarrow> string \<Rightarrow> string list" where
  \<comment> \<open>\<open>s.split(c)\<close> for a one-character separator.\<close>
  "split c s = split_acc c [] s"

text \<open>
  The messages of the exceptions. The literals of \<open>main.py\<close> are Japanese sentences; each
  is one constructor here, named after what it says. \<open>Text\<close> carries any other message,
  such as \<open>str(exc)\<close> of an exception raised by the media fetcher.
\<close>

datatype message =
    NoUrlsMsg            \<comment> \<open>line 61: enter at least one TikTok URL\<close>
  | TooManyUrlsMsg       \<comment> \<open>line 63: at most \<open>MAX_URLS\<close> URLs\<close>
  | BadSchemeMsg         \<comment> \<open>line 71: only http or https\<close>
  | NotTikTokMsg         \<comment> \<open>line 75: TikTok URLs only\<close>
  | DownloadFailedMsg    \<comment> \<open>line 155: the download of the videos failed\<close>
  | UnexpectedMsg        \<comment> \<open>line 185: an unexpected error occurred\<close>
  | Text string

text \<open>
  The exception classes the handlers of \<open>main.py\<close> tell apart. \<open>ValueError\<close>,
  \<open>RuntimeError\<close>, \<open>DownloadError\<close> and \<open>OtherException\<close> are subclasses of
  \<open>Exception\<close>; \<open>BaseException\<close> stands for the ones that are not (\<open>KeyboardInterrupt\<close>,
  \<open>SystemExit\<close>, \<open>CancelledError\<close>), which \<open>except Exception\<close> does not catch.
\<close>

datatype py_exc =
    ValueError message
  | RuntimeError message
  | DownloadError message
  | OtherException message
  | BaseException message

fun str_exc :: "py_exc \<Rightarrow> message" where
  "str_exc (ValueError m) = m"
| "str_exc (RuntimeError m) = m"
| "str_exc (DownloadError m) = m"
| "str_exc (OtherException m) = m"
| "str_exc (BaseException m) = m"

fun is_Exception :: "py_exc \<Rightarrow> bool" where
  \<comment> \<open>\<open>isinstance(exc, Exception)\<close>\<close>
  "is_Exception (BaseException m) = False"
| "is_Exception _ = True"

section \<open>The URL parser of the standard library\<close>

text \<open>
  \<open>urllib.parse.urlparse\<close> as CPython 3.11 has it, for the two things
  \<open>_ensure_valid_url\<close> reads: \<open>scheme\<close> and \<open>hostname\<close>. The result keeps \<open>scheme\<close> and
  \<open>netloc\<close>; \<open>hostname\<close> is a property computed from \<open>netloc\<close>. Path, parameters, query and
  fragment are not read by \<open>main.py\<close> and are left out. The parser raises \<open>ValueError\<close>
  for a \<open>netloc\<close> with one bracket only, or with brackets that do not hold an IPv6 or
  IPvFuture address (\<open>_check_bracketed_host\<close>). The check of
  \<open>_checknetloc\<close> only raises for characters whose NFKC form contains one of \<open>/?#@:\<close>;
  no code point below 256 has such a form, so it never raises here.
\<close>

record parse_result =
  scheme :: string
  netloc :: string

definition scheme_chars :: "char set" where
  "scheme_chars = set (''abcdefghijklmnopqrstuvwxyz'' @ ''ABCDEFGHIJKLMNOPQRSTUVWXYZ''
                       @ ''0123456789'' @ ''+-.'')"

definition ascii_alpha :: "char \<Rightarrow> bool" where
  \<comment> \<open>\<open>c.isascii() and c.isalpha()\<close>\<close>
  "ascii_alpha c =
     (let n = (of_char c :: nat) in (65 \<le> n \<and> n \<le> 90) \<or> (97 \<le> n \<and> n \<le> 122))"

definition c0_control_or_space :: "char \<Rightarrow> bool" where
  \<comment> \<open>\<open>_WHATWG_C0_CONTROL_OR_SPACE\<close>: code points 0 to 32\<close>
  "c0_control_or_space c = ((of_char c :: nat) \<le> 32)"

definition unsafe_byte :: "char \<Rightarrow> bool" where
  \<comment> \<open>\<open>_UNSAFE_URL_BYTES_TO_REMOVE\<close>: tab, carriage return, line feed\<close>
  "unsafe_byte c = ((of_char c :: nat) \<in> {9, 13, 10})"

definition split_scheme :: "string \<Rightarrow> string \<times> string" where
  \<comment> \<open>The scheme found in front of the first colon, and the rest of the URL.\<close>
  "split_scheme url =
     (let pre = takeWhile (\<lambda>x. x \<noteq> CHR '':'') url
      in if CHR '':'' \<in> set url \<and> pre \<noteq> [] \<and> ascii_alpha (hd url)
            \<and> (\<forall>c \<in> set pre. c \<in> scheme_chars)
         then (lower pre, drop (length pre + 1) url)
         else ('''', url))"

definition splitnetloc :: "string \<Rightarrow> string" where
  \<comment> \<open>\<open>_splitnetloc(url, 2)[0]\<close>: from index 2 up to the first of \<open>/?#\<close>.\<close>
  "splitnetloc url = takeWhile (\<lambda>x. x \<notin> set ''/?#'') (drop 2 url)"

definition hex_digit :: "char \<Rightarrow> bool" where
  "hex_digit c = (c \<in> set ''0123456789ABCDEFabcdef'')"

definition dec_digit :: "char \<Rightarrow> bool" where
  "dec_digit c = (c \<in> set ''0123456789'')"

definition dec_value :: "string \<Rightarrow> nat" where
  \<comment> \<open>\<open>int(s, 10)\<close> for a string of ASCII digits\<close>
  "dec_value s = foldl (\<lambda>acc c. 10 * acc + (of_char c - 48)) 0 s"

definition parse_octet_ok :: "string \<Rightarrow> bool" where
  \<comment> \<open>\<open>IPv4Address._parse_octet\<close> returns\<close>
  "parse_octet_ok s =
     (s \<noteq> [] \<and> (\<forall>c \<in> set s. dec_digit c) \<and> length s \<le> 3
      \<and> \<not> (s \<noteq> ''0'' \<and> hd s = CHR ''0'') \<and> dec_value s \<le> 255)"

definition ipv4_ok :: "string \<Rightarrow> bool" where
  \<comment> \<open>\<open>IPv4Address(s)\<close> returns\<close>
  "ipv4_ok s =
     (CHR ''/'' \<notin> set s \<and> s \<noteq> []
      \<and> (let octets = split CHR ''.'' s
         in length octets = 4 \<and> (\<forall>p \<in> set octets. parse_octet_ok p)))"

definition parse_hextet_ok :: "string \<Rightarrow> bool" where
  \<comment> \<open>\<open>IPv6Address._parse_hextet\<close> returns; \<open>int('', 16)\<close> raises\<close>
  "parse_hextet_ok s = ((\<forall>c \<in> set s. hex_digit c) \<and> length s \<le> 4 \<and> s \<noteq> [])"

definition ipv6_int_ok :: "string \<Rightarrow> bool" where
  \<comment> \<open>\<open>IPv6Address._ip_int_from_string(s)\<close> returns. A valid IPv4 suffix is replaced by
      two hextets; their values do not matter here, so \<open>0\<close> stands for both.\<close>
  "ipv6_int_ok s =
     (s \<noteq> [] \<and>
      (let parts0 = split CHR '':'' s
       in 3 \<le> length parts0 \<and>
          (let v4 = (CHR ''.'' \<in> set (last parts0))
           in (v4 \<longrightarrow> ipv4_ok (last parts0)) \<and>
              (let parts = (if v4 then butlast parts0 @ [''0'', ''0''] else parts0);
                   n = length parts;
                   skips = filter (\<lambda>i. parts ! i = []) [1 ..< n - 1]
               in n \<le> 9 \<and> length skips \<le> 1 \<and>
                  (case skips of
                     i # _ \<Rightarrow>
                       (let hi0 = i; lo0 = n - i - 1;
                            hi = (if hd parts = [] then hi0 - 1 else hi0);
                            lo = (if last parts = [] then lo0 - 1 else lo0)
                        in (hd parts = [] \<longrightarrow> hi = 0) \<and> (last parts = [] \<longrightarrow> lo = 0)
                           \<and> hi + lo < 8
                           \<and> (\<forall>p \<in> set (take hi parts). parse_hextet_ok p)
                           \<and> (\<forall>p \<in> set (drop (n - lo) parts). parse_hextet_ok p))
                   | [] \<Rightarrow>
                       n = 8 \<and> hd parts \<noteq> [] \<and> last parts \<noteq> []
                       \<and> (\<forall>p \<in> set parts. parse_hextet_ok p))))))"

definition ipv6_ok :: "string \<Rightarrow> bool" where
  \<comment> \<open>\<open>IPv6Address(s)\<close> returns: no slash, a scope id after \<open>%\<close> is not empty and has no
      second \<open>%\<close>, and the address part parses.\<close>
  "ipv6_ok s =
     (CHR ''/'' \<notin> set s
      \<and> (CHR ''%'' \<in> set s \<longrightarrow>
            after_first CHR ''%'' s \<noteq> [] \<and> CHR ''%'' \<notin> set (after_first CHR ''%'' s))
      \<and> ipv6_int_ok (before_first CHR ''%'' s))"

definition ipvfuture_ok :: "string \<Rightarrow> bool" where
  \<comment> \<open>the regular expression \<open>\Av[a-fA-F0-9]+\..+\Z\<close> matches\<close>
  "ipvfuture_ok h =
     (let r = drop 1 h; hx = takeWhile hex_digit r; rest = drop (length hx) r
      in startswith h ''v'' \<and> hx \<noteq> [] \<and> startswith rest ''.''
         \<and> drop 1 rest \<noteq> [] \<and> (\<forall>c \<in> set (drop 1 rest). of_char c \<noteq> (10::nat)))"

definition check_bracketed_host :: "string \<Rightarrow> bool" where
  \<comment> \<open>\<open>_check_bracketed_host\<close> returns without raising\<close>
  "check_bracketed_host h =
     (if startswith h ''v'' then ipvfuture_ok h
      else \<not> ipv4_ok h \<and> ipv6_ok h)"

definition urlparse :: "string \<Rightarrow> py_exc + parse_result" where
  "urlparse url0 =
     (let url1 = dropWhile c0_control_or_space url0;
          url2 = filter (\<lambda>c. \<not> unsafe_byte c) url1;
          (sch, url) = split_scheme url2
      in if take 2 url = ''//'' then
           (let nl = splitnetloc url;
                ob = (CHR ''['' \<in> set nl); cb = (CHR '']'' \<in> set nl)
            in if (ob \<and> \<not> cb) \<or> (cb \<and> \<not> ob)
               then Inl (ValueError (Text ''Invalid IPv6 URL''))
               else if ob \<and> cb
                     \<and> \<not> check_bracketed_host
                           (before_first CHR '']'' (after_first CHR ''['' nl))
               then Inl (ValueError (Text ''invalid bracketed host''))
               else Inr \<lparr>scheme = sch, netloc = nl\<rparr>)
         else Inr \<lparr>scheme = sch, netloc = ''''\<rparr>)"

definition hostinfo_hostname :: "string \<Rightarrow> string" where
  \<comment> \<open>\<open>_hostinfo[0]\<close> of a result with this \<open>netloc\<close>\<close>
  "hostinfo_hostname nl =
     (let hostinfo = after_last CHR ''@'' nl
      in if CHR ''['' \<in> set hostinfo
         then before_first CHR '']'' (after_first CHR ''['' hostinfo)
         else before_first CHR '':'' hostinfo)"

definition hostname :: "parse_result \<Rightarrow> string option" where
  \<comment> \<open>the property \<open>hostname\<close>: \<open>None\<close> when empty, else lower-cased up to a \<open>%\<close>\<close>
  "hostname p =
     (let h = hostinfo_hostname (netloc p)
      in if h = [] then None
         else Some (lower (before_first CHR ''%'' h)
                    @ (if CHR ''%'' \<in> set h then ''%'' @ after_first CHR ''%'' h else [])))"

section \<open>The URL validator\<close>

definition MAX_URLS :: nat where
  "MAX_URLS = 100"

definition TIKTOK_DOMAINS :: "string list" where
  "TIKTOK_DOMAINS = [''tiktok.com'', ''www.tiktok.com'', ''m.tiktok.com'', ''vm.tiktok.com'']"

definition host_allowed :: "string \<Rightarrow> bool" where
  \<comment> \<open>the \<open>any(...)\<close> of line 74\<close>
  "host_allowed h =
     list_ex (\<lambda>domain. h = domain \<or> endswith h (''.'' @ domain)) TIKTOK_DOMAINS"

text \<open>
  \<open>DownloadRequest._ensure_valid_url\<close>. The parser is an argument \<open>up\<close>, so that what is
  proved of the validator holds for every version of \<open>urlparse\<close>; the examples run it on
  \<open>urlparse\<close> above. A \<open>ValueError\<close> of the parser leaves the function as it is.
\<close>

definition ensure_valid_url :: "(string \<Rightarrow> py_exc + parse_result) \<Rightarrow> string \<Rightarrow> py_exc + string" where
  "ensure_valid_url up url =
     (case up url of
        Inl exc \<Rightarrow> Inl exc
      | Inr parsed \<Rightarrow>
          if scheme parsed \<notin> {''http'', ''https''} then Inl (ValueError BadSchemeMsg)
          else
            (let hn = lower (case hostname parsed of None \<Rightarrow> '''' | Some h \<Rightarrow> h)
             in if \<not> host_allowed hn then Inl (ValueError NotTikTokMsg)
                else Inr url))"

text \<open>
  The loop of \<open>DownloadRequest.validate_urls\<close> (lines 51 to 58), with the two variables it
  updates: the list \<open>cleaned\<close> and the set \<open>seen\<close>. An exception of \<open>_ensure_valid_url\<close>
  ends the loop and the validation.
\<close>

fun validate_loop ::
  "(string \<Rightarrow> py_exc + parse_result) \<Rightarrow> string list \<Rightarrow> string list \<Rightarrow> string set
     \<Rightarrow> py_exc + string list" where
  "validate_loop up [] cleaned seen = Inr cleaned"
| "validate_loop up (raw # urls) cleaned seen =
     (let url = strip raw
      in if url = [] then validate_loop up urls cleaned seen
         else
           (case ensure_valid_url up url of
              Inl exc \<Rightarrow> Inl exc
            | Inr normalized \<Rightarrow>
                if normalized \<notin> seen
                then validate_loop up urls (cleaned @ [normalized]) (insert normalized seen)
                else validate_loop up urls cleaned seen))"

definition validate_urls ::
  "(string \<Rightarrow> py_exc + parse_result) \<Rightarrow> string list \<Rightarrow> py_exc + string list" where
  "validate_urls up urls =
     (case validate_loop up urls [] {} of
        Inl exc \<Rightarrow> Inl exc
      | Inr cleaned \<Rightarrow>
          if cleaned = [] then Inl (ValueError NoUrlsMsg)
          else if length cleaned > MAX_URLS then Inl (ValueError TooManyUrlsMsg)
          else Inr cleaned)"

section \<open>The job: workspace, summary and fetch loop\<close>

text \<open>
  The job's working directory is the list of its immediate children, a name with a node:
  a regular file, a directory with its own children, or anything else (a socket, a FIFO,
  a dangling link), for which \<open>Path.is_file()\<close> is false as it is for a directory.
  File contents are not modelled.
\<close>

datatype node = File | Dir "(string \<times> node) list" | Other

fun is_file :: "node \<Rightarrow> bool" where
  "is_file File = True"
| "is_file (Dir children) = False"
| "is_file Other = False"

text \<open>
  The world a job runs in: \<open>files\<close> are the children of the job's working directory,
  \<open>archives\<close> the archives in the temporary directory (path and archived tree), and
  \<open>net\<close> whatever else the media fetcher depends on and changes (the network, its caches).
\<close>

record 'n world =
  net :: 'n
  files :: "(string \<times> node) list"
  archives :: "(string \<times> (string \<times> node) list) list"

record summary =
  job_id :: string
  total :: nat
  success :: nat
  failed :: "(string \<times> message) list"
  generated_at :: string

text \<open>
  What the job takes from its environment: the value of \<open>uuid.uuid4().hex\<close>, the
  temporary directory, the name \<open>mkdtemp\<close> chose inside it, the time stamp, and the media
  fetcher \<open>ydl.download([url])\<close> with the options of \<open>_build_yt_dlp_options\<close>: it changes
  the world and either returns (\<open>None\<close>) or raises.
\<close>

record 'n env =
  uuid_hex :: string
  tmp_dir :: string
  work_name :: string
  now_iso :: string
  download :: "string \<Rightarrow> 'n world \<Rightarrow> py_exc option \<times> 'n world"

text \<open>
  The loop of lines 144 to 151. Both handlers append to \<open>failed\<close>; an exception that is
  not an \<open>Exception\<close> leaves the loop and the job.
\<close>

fun fetch_loop ::
  "(string \<Rightarrow> 'n world \<Rightarrow> py_exc option \<times> 'n world) \<Rightarrow> string list \<Rightarrow> summary \<Rightarrow> 'n world
     \<Rightarrow> (py_exc + summary) \<times> 'n world" where
  "fetch_loop dl [] s w = (Inr s, w)"
| "fetch_loop dl (url # urls) s w =
     (case dl url w of
        (None, w') \<Rightarrow> fetch_loop dl urls (s\<lparr>success := success s + 1\<rparr>) w'
      | (Some exc, w') \<Rightarrow>
          (case exc of
             DownloadError m \<Rightarrow>
               fetch_loop dl urls (s\<lparr>failed := failed s @ [(url, str_exc exc)]\<rparr>) w'
           | BaseException m \<Rightarrow> (Inl exc, w')
           | _ \<Rightarrow>
               fetch_loop dl urls (s\<lparr>failed := failed s @ [(url, str_exc exc)]\<rparr>) w'))"

definition REPORT_NAME :: string where
  "REPORT_NAME = ''download_report.json''"

definition write_report :: "'n world \<Rightarrow> py_exc option \<times> 'n world" where
  \<comment> \<open>\<open>report_path.write_text(...)\<close>: creates or overwrites a regular file; on an entry
      of that name that is not a regular file the write is taken to raise \<open>OSError\<close>.\<close>
  "write_report w =
     (case map_of (files w) REPORT_NAME of
        Some (Dir children) \<Rightarrow> (Some (OtherException (Text ''OSError'')), w)
      | Some Other \<Rightarrow> (Some (OtherException (Text ''OSError'')), w)
      | _ \<Rightarrow> (None, w\<lparr>files := AList.update REPORT_NAME File (files w)\<rparr>))"

definition work_dir_path :: "'n env \<Rightarrow> string" where
  "work_dir_path e = tmp_dir e @ ''/'' @ work_name e"

definition zip_file_path :: "'n env \<Rightarrow> string" where
  \<comment> \<open>\<open>gettempdir() / work_dir.name\<close>, to which \<open>make_archive\<close> adds \<open>.zip\<close>\<close>
  "zip_file_path e = tmp_dir e @ ''/'' @ work_name e @ ''.zip''"

definition make_archive :: "'n env \<Rightarrow> 'n world \<Rightarrow> 'n world" where
  \<comment> \<open>the working directory as it is, archived under the zip path\<close>
  "make_archive e w = w\<lparr>archives := AList.update (zip_file_path e) (files w) (archives w)\<rparr>"

text \<open>
  \<open>_run_download_job\<close>. \<open>mkdtemp\<close> gives a new, empty working directory. The result is the
  exception raised or the triple returned, with the world the job leaves. The calls
  before the loop (\<open>uuid4\<close>, \<open>mkdtemp\<close>, the construction of the fetcher) and
  \<open>make_archive\<close> are taken to return; the content of the report is not modelled, only
  that the file is written.
\<close>

definition run_download_job ::
  "'n env \<Rightarrow> string list \<Rightarrow> 'n world \<Rightarrow> (py_exc + string \<times> summary \<times> string) \<times> 'n world" where
  "run_download_job e urls w0 =
     (let summary0 = \<lparr>job_id = uuid_hex e, total = length urls, success = 0, failed = [],
                       generated_at = now_iso e\<rparr>
      in case fetch_loop (download e) urls summary0 (w0\<lparr>files := []\<rparr>) of
           (Inl exc, w) \<Rightarrow> (Inl exc, w)
         | (Inr summ, w) \<Rightarrow>
             (let downloaded_files = filter (\<lambda>(name, n). is_file n) (files w)
              in if downloaded_files = [] then (Inl (RuntimeError DownloadFailedMsg), w)
                 else
                   (case write_report w of
                      (Some exc, w') \<Rightarrow> (Inl exc, w')
                    | (None, w') \<Rightarrow>
                        (Inr (zip_file_path e, summ, work_dir_path e), make_archive e w'))))"

section \<open>The endpoint\<close>

fun str_nat :: "nat \<Rightarrow> string" where
  \<comment> \<open>\<open>str(n)\<close> of a non-negative integer\<close>
  "str_nat n =
     (if n < 10 then [char_of (48 + n)] else str_nat (n div 10) @ [char_of (48 + n mod 10)])"

declare str_nat.simps [simp del]

fun join :: "string \<Rightarrow> string list \<Rightarrow> string" where
  "join sep [] = []"
| "join sep [x] = x"
| "join sep (x # y # ys) = x @ sep @ join sep (y # ys)"

definition json_dumps_counts :: "(string \<times> nat) list \<Rightarrow> string" where
  \<comment> \<open>\<open>json.dumps(d)\<close> with its default separators, for a dict whose keys are plain ASCII
      names and whose values are non-negative integers\<close>
  \<open>json_dumps_counts d =
     ''{'' @ join '', '' (map (\<lambda>(k, v). ''"'' @ k @ ''": '' @ str_nat v) d) @ ''}''\<close>

datatype http_response =
    StreamingResponse "(string \<times> string) list" "(string \<times> node) list option"
  | HTTPException nat message

text \<open>
  \<open>download_videos\<close>, on the validated \<open>payload.urls\<close>. The result is an exception that
  leaves the handler or the response, then the paths handed to the background task
  \<open>_cleanup_paths\<close>, then the world. The body of the response is the archive stored under
  the zip path.
\<close>

definition download_videos ::
  "'n env \<Rightarrow> string list \<Rightarrow> 'n world \<Rightarrow> (py_exc + http_response) \<times> string list \<times> 'n world" where
  \<open>download_videos e urls w0 =
     (case run_download_job e urls w0 of
        (Inl exc, w) \<Rightarrow>
          (case exc of
             ValueError m \<Rightarrow> (Inr (HTTPException 400 m), [], w)
           | RuntimeError m \<Rightarrow> (Inr (HTTPException 500 m), [], w)
           | BaseException m \<Rightarrow> (Inl exc, [], w)
           | _ \<Rightarrow> (Inr (HTTPException 500 UnexpectedMsg), [], w))
      | (Inr (zip_path, summ, work_dir), w) \<Rightarrow>
          (let headers =
                 [(''Content-Disposition'',
                     ''attachment; filename="tiktok_videos_'' @ job_id summ @ ''.zip"''),
                  (''X-Job-Id'', job_id summ),
                  (''X-Download-Summary'',
                     json_dumps_counts [(''total'', total summ), (''success'', success summ),
                                        (''failed'', length (failed summ))])]
           in (Inr (StreamingResponse headers (map_of (archives w) zip_path)),
               [zip_path, work_dir], w)))\<close>

section \<open>Cleanup\<close>

text \<open>
  \<open>_cleanup_paths\<close> over any file system \<open>'w\<close>, given by the four operations the function
  calls. A query returns its answer or raises; \<open>rmtree\<close> and \<open>unlink\<close> change the file
  system and return (\<open>None\<close>) or raise.
\<close>

record 'w fs_ops =
  op_is_dir :: "string \<Rightarrow> 'w \<Rightarrow> py_exc + bool"
  op_rmtree :: "string \<Rightarrow> 'w \<Rightarrow> py_exc option \<times> 'w"
  op_exists :: "string \<Rightarrow> 'w \<Rightarrow> py_exc + bool"
  op_unlink :: "string \<Rightarrow> 'w \<Rightarrow> py_exc option \<times> 'w"

definition cleanup_one :: "'w fs_ops \<Rightarrow> string \<Rightarrow> 'w \<Rightarrow> py_exc option \<times> 'w" where
  \<comment> \<open>the body of the \<open>try\<close>, lines 92 to 95\<close>
  "cleanup_one ops path w =
     (case op_is_dir ops path w of
        Inl exc \<Rightarrow> (Some exc, w)
      | Inr True \<Rightarrow> op_rmtree ops path w
      | Inr False \<Rightarrow>
          (case op_exists ops path w of
             Inl exc \<Rightarrow> (Some exc, w)
           | Inr True \<Rightarrow> op_unlink ops path w
           | Inr False \<Rightarrow> (None, w)))"

fun cleanup_paths :: "'w fs_ops \<Rightarrow> string list \<Rightarrow> 'w \<Rightarrow> py_exc option \<times> 'w" where
  "cleanup_paths ops [] w = (None, w)"
| "cleanup_paths ops (path # paths) w =
     (case cleanup_one ops path w of
        (None, w') \<Rightarrow> cleanup_paths ops paths w'
      | (Some exc, w') \<Rightarrow>
          if is_Exception exc then cleanup_paths ops paths w' else (Some exc, w'))"

section \<open>Notions used to state the properties\<close>

definition entries :: "string list \<Rightarrow> string list" where
  \<comment> \<open>the entries of the input that the loop does not skip: trimmed and not empty\<close>
  "entries urls = filter (\<lambda>u. u \<noteq> []) (map strip urls)"

fun first_seen :: "'a list \<Rightarrow> 'a list" where
  \<comment> \<open>every element once, at the place of its first occurrence\<close>
  "first_seen [] = []"
| "first_seen (x # xs) = x # first_seen (filter (\<lambda>y. y \<noteq> x) xs)"

definition host_of :: "parse_result \<Rightarrow> string" where
  \<comment> \<open>\<open>(parsed.hostname or "").lower()\<close>\<close>
  "host_of p = lower (case hostname p of None \<Rightarrow> [] | Some h \<Rightarrow> h)"

fun outcomes ::
  "(string \<Rightarrow> 'n world \<Rightarrow> py_exc option \<times> 'n world) \<Rightarrow> string list \<Rightarrow> 'n world
     \<Rightarrow> py_exc option list" where
  \<comment> \<open>what the fetcher does on each URL in turn, each call in the world the calls before it
      left\<close>
  "outcomes dl [] w = []"
| "outcomes dl (url # urls) w = (case dl url w of (r, w') \<Rightarrow> r # outcomes dl urls w')"

fun world_after ::
  "(string \<Rightarrow> 'n world \<Rightarrow> py_exc option \<times> 'n world) \<Rightarrow> string list \<Rightarrow> 'n world \<Rightarrow> 'n world" where
  \<comment> \<open>the world after the fetcher has been called on every URL in turn\<close>
  "world_after dl [] w = w"
| "world_after dl (url # urls) w = world_after dl urls (snd (dl url w))"

fun failures :: "string list \<Rightarrow> py_exc option list \<Rightarrow> (string \<times> message) list" where
  \<comment> \<open>the URLs whose fetch raised, each with the message of its exception, in input order\<close>
  "failures (url # urls) (Some exc # rs) = (url, str_exc exc) # failures urls rs"
| "failures (url # urls) (None # rs) = failures urls rs"
| "failures _ _ = []"

definition successes :: "py_exc option list \<Rightarrow> nat" where
  "successes rs = length (filter (\<lambda>r. r = None) rs)"

definition only_Exceptions :: "py_exc option list \<Rightarrow> bool" where
  \<comment> \<open>no fetch raised an exception outside \<open>Exception\<close>\<close>
  "only_Exceptions rs = list_all (\<lambda>r. case r of None \<Rightarrow> True | Some exc \<Rightarrow> is_Exception exc) rs"

definition all_failed :: "py_exc option list \<Rightarrow> bool" where
  \<comment> \<open>every fetch raised an \<open>Exception\<close>\<close>
  "all_failed rs = list_all (\<lambda>r. case r of None \<Rightarrow> False | Some exc \<Rightarrow> is_Exception exc) rs"

definition no_regular_file :: "(string \<times> node) list \<Rightarrow> bool" where
  \<comment> \<open>no immediate child of the directory is a regular file\<close>
  "no_regular_file fs = list_all (\<lambda>(name, n). n \<noteq> File) fs"

definition ops_raise_only_Exceptions :: "'w fs_ops \<Rightarrow> bool" where
  \<comment> \<open>whatever an operation of the file system raises is an \<open>Exception\<close>\<close>
  "ops_raise_only_Exceptions ops =
     (\<forall>p w exc.
        (op_is_dir ops p w = Inl exc \<longrightarrow> is_Exception exc) \<and>
        (op_exists ops p w = Inl exc \<longrightarrow> is_Exception exc) \<and>
        (fst (op_rmtree ops p w) = Some exc \<longrightarrow> is_Exception exc) \<and>
        (fst (op_unlink ops p w) = Some exc \<longrightarrow> is_Exception exc))"






subsection \<open>A scripted fetcher and a small file system, for the examples\<close>

definition scripted_download ::
  "(string \<times> py_exc option \<times> (string \<times> node) list) list
     \<Rightarrow> string \<Rightarrow> unit world \<Rightarrow> py_exc option \<times> unit world" where
  \<comment> \<open>a fetcher that, for a URL of the script, adds the listed entries to the working
      directory and then returns or raises as listed; any other URL raises
      \<open>DownloadError\<close>\<close>
  "scripted_download script url w =
     (case map_of script url of
        None \<Rightarrow> (Some (DownloadError (Text ''Unsupported URL'')), w)
      | Some (r, new) \<Rightarrow> (r, w\<lparr>files := files w @ new\<rparr>))"

definition example_env ::
  "(string \<times> py_exc option \<times> (string \<times> node) list) list \<Rightarrow> unit env" where
  "example_env script =
     \<lparr>uuid_hex = ''0f3a'', tmp_dir = ''/tmp'', work_name = ''tiktok_dl_x1'',
      now_iso = ''2024-01-01T00:00:00+00:00'', download = scripted_download script\<rparr>"

definition empty_world :: "unit world" where
  "empty_world = \<lparr>net = (), files = [], archives = []\<rparr>"

record simple_fs =
  nodes :: "(string \<times> node) list"
  locked :: "string list"

definition simple_ops :: "simple_fs fs_ops" where
  \<comment> \<open>paths with their nodes; \<open>unlink\<close> of a locked path raises, \<open>rmtree\<close> with
      \<open>ignore_errors=True\<close> leaves a locked path in place without raising\<close>
  "simple_ops =
     \<lparr>op_is_dir = (\<lambda>p w. Inr (case map_of (nodes w) p of Some (Dir c) \<Rightarrow> True | _ \<Rightarrow> False)),
      op_rmtree = (\<lambda>p w. (None, if p \<in> set (locked w) then w
                                   else w\<lparr>nodes := AList.delete p (nodes w)\<rparr>)),
      op_exists = (\<lambda>p w. Inr (map_of (nodes w) p \<noteq> None)),
      op_unlink = (\<lambda>p w. if p \<in> set (locked w)
                           then (Some (OtherException (Text ''PermissionError'')), w)
                           else (None, w\<lparr>nodes := AList.delete p (nodes w)\<rparr>))\<rparr>"

subsection \<open>Reading a response, and example runs\<close>

definition response_body :: "py_exc + http_response \<Rightarrow> (string \<times> node) list option" where
  "response_body r = (case r of Inr (StreamingResponse headers body) \<Rightarrow> body | _ \<Rightarrow> None)"

definition response_header :: "string \<Rightarrow> py_exc + http_response \<Rightarrow> string option" where
  "response_header name r =
     (case r of Inr (StreamingResponse headers body) \<Rightarrow> map_of headers name | _ \<Rightarrow> None)"

text \<open>The world in which the fetch loop starts: \<open>mkdtemp\<close> has made an empty directory.\<close>

definition fresh :: "'n world \<Rightarrow> 'n world" where
  "fresh w = w\<lparr>files := []\<rparr>"

text \<open>
  Scripts for the fetcher: two fetches that each write a video around one that fails;
  two kinds of failure before a success; a failure that leaves a partial download; and a
  fetch that returns having written no regular file at the top of the working directory,
  only a subdirectory and a FIFO.
\<close>

definition mixed_script :: "(string \<times> py_exc option \<times> (string \<times> node) list) list" where
  "mixed_script =
     [(''https://tiktok.com/1'', None, [(''1_ann.mp4'', File)]),
      (''https://tiktok.com/2'', Some (DownloadError (Text ''HTTP Error 404'')), []),
      (''https://tiktok.com/3'', None, [(''3_bob.mp4'', File)])]"

definition failing_script :: "(string \<times> py_exc option \<times> (string \<times> node) list) list" where
  "failing_script =
     [(''https://tiktok.com/1'', Some (DownloadError (Text ''HTTP Error 404'')), []),
      (''https://tiktok.com/2'', Some (OtherException (Text ''KeyError'')), []),
      (''https://tiktok.com/3'', None, [(''3_bob.mp4'', File)])]"

definition partial_script :: "(string \<times> py_exc option \<times> (string \<times> node) list) list" where
  "partial_script =
     [(''https://tiktok.com/1'', Some (DownloadError (Text ''timed out'')),
         [(''1_ann.mp4.part'', File)])]"

definition nested_script :: "(string \<times> py_exc option \<times> (string \<times> node) list) list" where
  "nested_script =
     [(''https://tiktok.com/1'', None, [(''sub'', Dir [(''1_ann.mp4'', File)]), (''pipe'', Other)])]"

definition three_urls :: "string list" where
  "three_urls = [''https://tiktok.com/1'', ''https://tiktok.com/2'', ''https://tiktok.com/3'']"

text \<open>An archive that cannot be unlinked, next to the working directory of its job.\<close>

definition example_fs :: simple_fs where
  "example_fs =
     \<lparr>nodes = [(''/tmp/tiktok_dl_x1.zip'', File),
               (''/tmp/tiktok_dl_x1'', Dir [(''1_ann.mp4'', File)]),
               (''/tmp/other'', File)],
      locked = [''/tmp/tiktok_dl_x1.zip'']\<rparr>"

text \<open>A batch of \<open>k\<close> distinct valid URLs, for the examples of the size limit.\<close>

definition numbered_url :: "nat \<Rightarrow> string" where
  "numbered_url n = ''https://tiktok.com/'' @ replicate n CHR ''a''"

definition numbered_urls :: "nat \<Rightarrow> string list" where
  "numbered_urls k = map numbered_url [0 ..< k]"

section \<open>Properties of the URL validator\<close>

lemma ensure_valid_url_Inr: "ensure_valid_url up u = Inr v \<Longrightarrow> v = u"
  by (auto simp: ensure_valid_url_def Let_def split: sum.splits if_splits)

lemma first_seen_filter: "first_seen (filter P xs) = filter P (first_seen xs)"
proof (induction xs rule: first_seen.induct)
  case 1 then show ?case by simp
next
  case (2 x xs)
  have comm: "filter (\<lambda>y. y \<noteq> x) (filter P xs) = filter P (filter (\<lambda>y. y \<noteq> x) xs)"
    by (induction xs) auto
  show ?case
  proof (cases "P x")
    case True
    then show ?thesis using 2 by (simp only: filter.simps first_seen.simps comm if_True)
  next
    case False
    then have "filter P (filter (\<lambda>y. y \<noteq> x) xs) = filter P xs"
      by (induction xs) auto
    then show ?thesis using 2 False by (simp only: filter.simps first_seen.simps if_False)
  qed
qed

lemma set_first_seen: "set (first_seen xs) = set xs"
  by (induction xs rule: first_seen.induct) auto

lemma distinct_first_seen: "distinct (first_seen xs)"
  by (induction xs rule: first_seen.induct) (auto simp: set_first_seen)

lemma subseq_first_seen: "subseq (first_seen xs) xs"
proof (induction xs rule: first_seen.induct)
  case 1 then show ?case by simp
next
  case (2 x xs)
  have "subseq (filter (\<lambda>y. y \<noteq> x) xs) xs" by simp
  with 2 have "subseq (first_seen (filter (\<lambda>y. y \<noteq> x) xs)) xs"
    using subseq_order.order_trans by blast
  then show ?case by simp
qed

lemma first_seen_distinct: "distinct xs \<Longrightarrow> first_seen xs = xs"
proof (induction xs)
  case Nil then show ?case by simp
next
  case (Cons x xs)
  then have "filter (\<lambda>y. y \<noteq> x) xs = xs" by (auto intro: filter_True)
  with Cons show ?case by simp
qed

lemma length_first_seen: "length (first_seen xs) = card (set xs)"
  using distinct_card[OF distinct_first_seen, of xs] by (simp add: set_first_seen)

lemma first_seen_snoc:
  "first_seen (xs @ [x]) = (if x \<in> set xs then first_seen xs else first_seen xs @ [x])"
proof (induction xs rule: first_seen.induct)
  case 1 then show ?case by simp
next
  case (2 y ys)
  then show ?case by (auto)
qed

lemma entries_Nil: "entries [] = []"
  by (simp add: entries_def)

lemma entries_Cons:
  "entries (raw # urls) = (if strip raw = [] then entries urls else strip raw # entries urls)"
  by (simp add: entries_def)

lemma validate_loop_char:
  "validate_loop up urls cleaned (set cleaned) =
     (case List.find (\<lambda>u. isl (ensure_valid_url up u)) (entries urls) of
        Some u \<Rightarrow> Inl (projl (ensure_valid_url up u))
      | None \<Rightarrow> Inr (cleaned @ first_seen (filter (\<lambda>u. u \<notin> set cleaned) (entries urls))))"
proof (induction urls arbitrary: cleaned)
  case Nil then show ?case by (simp add: entries_Nil)
next
  case (Cons raw urls)
  show ?case
  proof (cases "strip raw = []")
    case True
    then have e: "entries (raw # urls) = entries urls" by (simp add: entries_Cons)
    have "validate_loop up (raw # urls) cleaned (set cleaned)
            = validate_loop up urls cleaned (set cleaned)"
      using True by simp
    then show ?thesis unfolding e using Cons[of cleaned] by simp
  next
    case False
    then have e: "entries (raw # urls) = strip raw # entries urls" by (simp add: entries_Cons)
    show ?thesis
    proof (cases "ensure_valid_url up (strip raw)")
      case (Inl exc)
      then show ?thesis unfolding e using False by simp
    next
      case (Inr v)
      then have v: "v = strip raw" by (rule ensure_valid_url_Inr)
      show ?thesis
      proof (cases "strip raw \<in> set cleaned")
        case True
        have a: "validate_loop up (raw # urls) cleaned (set cleaned)
                = validate_loop up urls cleaned (set cleaned)"
          using True False Inr v by simp
        have g: "filter (\<lambda>u. u \<notin> set cleaned) (strip raw # entries urls)
                     = filter (\<lambda>u. u \<notin> set cleaned) (entries urls)"
          using True by simp
        have h: "find (\<lambda>u. isl (ensure_valid_url up u)) (strip raw # entries urls)
                     = find (\<lambda>u. isl (ensure_valid_url up u)) (entries urls)"
          using Inr by simp
        show ?thesis unfolding a e g h by (rule Cons)
      next
        case notin: False
        have f: "filter (\<lambda>u. u \<notin> set (cleaned @ [strip raw])) (entries urls)
               = filter (\<lambda>y. y \<noteq> strip raw) (filter (\<lambda>u. u \<notin> set cleaned) (entries urls))"
          by (auto intro: filter_cong)
        have step: "validate_loop up (raw # urls) cleaned (set cleaned)
                  = validate_loop up urls (cleaned @ [strip raw]) (set (cleaned @ [strip raw]))"
          using Inr v False notin by (simp add: Let_def)
        have g: "filter (\<lambda>u. u \<notin> set cleaned) (strip raw # entries urls)
                 = strip raw # filter (\<lambda>u. u \<notin> set cleaned) (entries urls)"
          using notin by simp
        have h: "find (\<lambda>u. isl (ensure_valid_url up u)) (strip raw # entries urls)
                     = find (\<lambda>u. isl (ensure_valid_url up u)) (entries urls)"
          using Inr by simp
        show ?thesis unfolding step Cons[of "cleaned @ [strip raw]"] f e g h
          by (simp split: option.splits)
      qed
    qed
  qed
qed

lemma validate_urls_char:
  "validate_urls up urls =
     (case List.find (\<lambda>u. isl (ensure_valid_url up u)) (entries urls) of
        Some u \<Rightarrow> Inl (projl (ensure_valid_url up u))
      | None \<Rightarrow>
          if entries urls = [] then Inl (ValueError NoUrlsMsg)
          else if card (set (entries urls)) > MAX_URLS then Inl (ValueError TooManyUrlsMsg)
          else Inr (first_seen (entries urls)))"
proof -
  have ne: "first_seen xs = [] \<longleftrightarrow> xs = []" for xs :: "string list"
    by (cases xs) simp_all
  show ?thesis
    using validate_loop_char[of up urls "[]"]
    by (simp add: validate_urls_def length_first_seen ne split: option.splits)
qed




lemma first_seen_nth:
  "first_seen xs = map (\<lambda>i. xs ! i) (filter (\<lambda>i. xs ! i \<notin> set (take i xs)) [0 ..< length xs])"
proof (induction xs rule: rev_induct)
  case Nil then show ?case by simp
next
  case (snoc x xs)
  let ?Q = "\<lambda>i. (xs @ [x]) ! i \<notin> set (take i (xs @ [x]))"
  let ?P = "\<lambda>i. xs ! i \<notin> set (take i xs)"
  have a: "filter ?Q [0 ..< length xs] = filter ?P [0 ..< length xs]"
    by (rule filter_cong) (auto simp: nth_append)
  have b: "map (\<lambda>i. (xs @ [x]) ! i) (filter ?P [0 ..< length xs])
         = map (\<lambda>i. xs ! i) (filter ?P [0 ..< length xs])"
    by (rule map_cong) (auto simp: nth_append)
  have q: "?Q (length xs) \<longleftrightarrow> x \<notin> set xs" by simp
  have "filter ?Q [0 ..< length (xs @ [x])]
          = filter ?P [0 ..< length xs] @ (if x \<notin> set xs then [length xs] else [])"
    using a q by (simp del: take_append nth_append_length)
  then have "map (\<lambda>i. (xs @ [x]) ! i) (filter ?Q [0 ..< length (xs @ [x])])
          = map (\<lambda>i. xs ! i) (filter ?P [0 ..< length xs]) @ (if x \<notin> set xs then [x] else [])"
    using b by simp
  then show ?case using snoc by (simp add: first_seen_snoc)
qed

lemma first_seen_replicate: "first_seen (replicate (Suc n) x) = [x]"
  by simp

lemma entries_replicate:
  "strip u = u \<Longrightarrow> u \<noteq> [] \<Longrightarrow> entries (replicate n u) = replicate n u"
  by (simp add: entries_def)

lemma find_None_all_valid:
  "(\<forall>u \<in> set es. ensure_valid_url up u = Inr u) \<Longrightarrow>
     find (\<lambda>u. isl (ensure_valid_url up u)) es = None"
  by (simp add: find_None_iff)

lemma find_Some_invalid:
  assumes "u \<in> set es" "ensure_valid_url up u = Inl exc"
  shows "\<exists>u' exc'. find (\<lambda>u. isl (ensure_valid_url up u)) es = Some u'
            \<and> u' \<in> set es \<and> ensure_valid_url up u' = Inl exc'"
proof -
  have "find (\<lambda>u. isl (ensure_valid_url up u)) es \<noteq> None"
    using assms by (auto simp: find_None_iff)
  then obtain u' where f: "find (\<lambda>u. isl (ensure_valid_url up u)) es = Some u'" by auto
  then have "u' \<in> set es" "isl (ensure_valid_url up u')"
    by (auto simp: find_Some_iff)
  then show ?thesis using f by (cases "ensure_valid_url up u'") auto
qed

text \<open>
  Claim C4. Whenever validation succeeds, the validated list has no duplicates, holds
  exactly the trimmed non-empty entries of the input, in the order of the input, each at
  the place of its first occurrence: it is the list of the entries that did not occur
  earlier. Entries are compared as the strings they are.
\<close>
theorem validate_urls_dedup:
  "validate_urls up urls = Inr cleaned \<Longrightarrow>
     distinct cleaned \<and> set cleaned = set (entries urls) \<and> subseq cleaned (entries urls)
     \<and> cleaned = first_seen (entries urls)
     \<and> cleaned = map (\<lambda>i. entries urls ! i)
                   (filter (\<lambda>i. entries urls ! i \<notin> set (take i (entries urls)))
                      [0 ..< length (entries urls)])"
proof -
  assume a: "validate_urls up urls = Inr cleaned"
  then have c: "cleaned = first_seen (entries urls)"
    unfolding validate_urls_char by (auto split: option.splits if_splits)
  have "distinct (first_seen (entries urls))" by (rule distinct_first_seen)
  moreover have "set (first_seen (entries urls)) = set (entries urls)" by (rule set_first_seen)
  moreover have "subseq (first_seen (entries urls)) (entries urls)" by (rule subseq_first_seen)
  moreover note first_seen_nth[of "entries urls"]
  ultimately show ?thesis unfolding c by blast
qed

theorem validate_urls_dedup_witness:
  "validate_urls urlparse
     [''  https://www.tiktok.com/a'', ''https://WWW.tiktok.com/a'', '' '',
      ''https://www.tiktok.com/a'', ''https://vm.tiktok.com/b'', ''https://WWW.tiktok.com/a '']
   = Inr [''https://www.tiktok.com/a'', ''https://WWW.tiktok.com/a'', ''https://vm.tiktok.com/b'']
   \<and> distinct [''https://www.tiktok.com/a'', ''https://WWW.tiktok.com/a'', ''https://vm.tiktok.com/b'']
   \<and> [''https://www.tiktok.com/a'', ''https://WWW.tiktok.com/a'', ''https://vm.tiktok.com/b'']
       = first_seen (entries
          [''  https://www.tiktok.com/a'', ''https://WWW.tiktok.com/a'', '' '',
           ''https://www.tiktok.com/a'', ''https://vm.tiktok.com/b'', ''https://WWW.tiktok.com/a ''])"
proof -
  have h: "validate_urls urlparse
     [''  https://www.tiktok.com/a'', ''https://WWW.tiktok.com/a'', '' '',
      ''https://www.tiktok.com/a'', ''https://vm.tiktok.com/b'', ''https://WWW.tiktok.com/a '']
   = Inr [''https://www.tiktok.com/a'', ''https://WWW.tiktok.com/a'', ''https://vm.tiktok.com/b'']"
    by code_simp
  show ?thesis using validate_urls_dedup[OF h] h by blast
qed

text \<open>
  Claim C2, as stated, fails on its own example: the second entry has no scheme, and the
  exception of \<open>_ensure_valid_url\<close> ends the whole validation, although the first entry
  alone is valid.
\<close>
theorem validate_urls_strips_invalid_counterexample:
  "ensure_valid_url urlparse ''https://www.tiktok.com/@user/video/123''
     = Inr ''https://www.tiktok.com/@user/video/123''
   \<and> validate_urls urlparse
        [''https://www.tiktok.com/@user/video/123'', ''not a url'', ''https://example.com/x'']
      = Inl (ValueError BadSchemeMsg)
   \<and> validate_urls urlparse
        [''https://www.tiktok.com/@user/video/123'', ''not a url'', ''https://example.com/x'']
      \<noteq> Inr [''https://www.tiktok.com/@user/video/123'']"
  by code_simp

text \<open>
  Claim C2, amended. An entry that is not empty after trimming and that
  \<open>_ensure_valid_url\<close> rejects is not stripped: validation fails, with the exception of
  the first such entry in input order.
\<close>

theorem validate_urls_invalid_entry_fails:
  assumes "u \<in> set (entries urls)" and "ensure_valid_url up u = Inl exc"
  shows "\<exists>u' exc'. find (\<lambda>x. isl (ensure_valid_url up x)) (entries urls) = Some u'
            \<and> ensure_valid_url up u' = Inl exc' \<and> validate_urls up urls = Inl exc'"
proof -
  obtain u' exc' where f: "find (\<lambda>u. isl (ensure_valid_url up u)) (entries urls) = Some u'"
    and e: "ensure_valid_url up u' = Inl exc'"
    using find_Some_invalid[OF assms] by blast
  have "validate_urls up urls = Inl exc'"
    unfolding validate_urls_char f using e by simp
  then show ?thesis using f e by blast
qed

theorem validate_urls_invalid_entry_fails_witness:
  "''not a url'' \<in> set (entries [''https://www.tiktok.com/@user/video/123'', ''not a url'', ''https://example.com/x''])
   \<and> ensure_valid_url urlparse ''not a url'' = Inl (ValueError BadSchemeMsg)
   \<and> (\<exists>u' exc'. find (\<lambda>x. isl (ensure_valid_url urlparse x))
          (entries [''https://www.tiktok.com/@user/video/123'', ''not a url'', ''https://example.com/x'']) = Some u'
            \<and> ensure_valid_url urlparse u' = Inl exc'
            \<and> validate_urls urlparse [''https://www.tiktok.com/@user/video/123'', ''not a url'', ''https://example.com/x''] = Inl exc')"
proof -
  have a: "''not a url'' \<in> set (entries [''https://www.tiktok.com/@user/video/123'', ''not a url'', ''https://example.com/x''])"
    by code_simp
  have b: "ensure_valid_url urlparse ''not a url'' = Inl (ValueError BadSchemeMsg)"
    by code_simp
  show ?thesis using validate_urls_invalid_entry_fails[OF a b] a b by blast
qed

text \<open>
  Claim C3, as stated, fails: 101 copies of one valid URL are more than \<open>MAX_URLS\<close>
  entries, but the limit is checked on the list without duplicates, which has one entry.
\<close>
theorem validate_urls_over_limit_counterexample:
  "length (replicate 101 ''https://www.tiktok.com/@user/video/123'') > MAX_URLS
   \<and> ensure_valid_url urlparse ''https://www.tiktok.com/@user/video/123''
        = Inr ''https://www.tiktok.com/@user/video/123''
   \<and> validate_urls urlparse (replicate 101 ''https://www.tiktok.com/@user/video/123'')
        = Inr [''https://www.tiktok.com/@user/video/123'']"
proof -
  let ?u = "''https://www.tiktok.com/@user/video/123''"
  have v: "ensure_valid_url urlparse ?u = Inr ?u" by code_simp
  have s: "strip ?u = ?u" by code_simp
  have e: "entries (replicate 101 ?u) = replicate 101 ?u"
    by (rule entries_replicate[OF s]) simp
  have f: "find (\<lambda>u. isl (ensure_valid_url urlparse u)) (replicate 101 ?u) = None"
    by (rule find_None_all_valid) (simp add: v)
  have r: "replicate 101 ?u = replicate (Suc 100) ?u" by simp
  have fs: "first_seen (replicate 101 ?u) = [?u]"
    unfolding r by (rule first_seen_replicate)
  have c: "card (set (replicate 101 ?u)) = 1" by simp
  have "validate_urls urlparse (replicate 101 ?u) = Inr [?u]"
    unfolding validate_urls_char e f fs c by (simp add: MAX_URLS_def)
  then show ?thesis using v by (simp add: MAX_URLS_def)
qed

text \<open>
  Claim C3, amended. When every entry is individually valid, validation fails with the
  too-many error exactly when the number of distinct trimmed non-empty entries exceeds
  \<open>MAX_URLS\<close>; a list with at least one and at most \<open>MAX_URLS\<close> distinct entries is
  accepted, whatever its length.
\<close>

theorem validate_urls_too_many_iff:
  assumes "\<forall>u \<in> set (entries urls). ensure_valid_url up u = Inr u"
  shows "(validate_urls up urls = Inl (ValueError TooManyUrlsMsg)
           \<longleftrightarrow> card (set (entries urls)) > MAX_URLS)
       \<and> (entries urls \<noteq> [] \<and> card (set (entries urls)) \<le> MAX_URLS
           \<longrightarrow> validate_urls up urls = Inr (first_seen (entries urls)))"
proof -
  have f: "find (\<lambda>u. isl (ensure_valid_url up u)) (entries urls) = None"
    by (rule find_None_all_valid[OF assms])
  have ne: "card (set (entries urls)) > MAX_URLS \<Longrightarrow> entries urls \<noteq> []"
    by (auto simp: MAX_URLS_def)
  show ?thesis unfolding validate_urls_char f using ne by auto
qed

lemma strip_numbered: "strip (numbered_url n) = numbered_url n"
proof -
  have "\<not> isspace CHR ''a''" "\<not> isspace CHR ''/''" "\<not> isspace CHR ''h''" by (simp_all add: isspace_def)
  then show ?thesis
    unfolding numbered_url_def
    by (cases n) (simp_all add: strip_def replicate_append_same[symmetric] del: replicate_Suc)
qed

lemma numbered_url_nonempty: "numbered_url n \<noteq> []"
  by (simp add: numbered_url_def)

lemma inj_numbered_url: "inj numbered_url"
  by (simp add: inj_on_def numbered_url_def)

lemma urlparse_numbered:
  "urlparse (numbered_url n) = Inr \<lparr>scheme = ''https'', netloc = ''tiktok.com''\<rparr>"
proof -
  have u: "\<not> unsafe_byte CHR ''a''" by (simp add: unsafe_byte_def)
  have f: "filter (\<lambda>c. \<not> unsafe_byte c) (''https://tiktok.com/'' @ replicate n CHR ''a'')
             = ''https://tiktok.com/'' @ replicate n CHR ''a''"
    using u by (simp add: unsafe_byte_def)
  have d: "dropWhile c0_control_or_space (''https://tiktok.com/'' @ replicate n CHR ''a'')
             = ''https://tiktok.com/'' @ replicate n CHR ''a''"
    by (simp add: c0_control_or_space_def)
  have l: "lower ''https'' = ''https''" by (simp add: lower_def lower_char_def)
  have s: "split_scheme (''https://tiktok.com/'' @ replicate n CHR ''a'')
             = (''https'', ''//tiktok.com/'' @ replicate n CHR ''a'')"
    by (simp add: split_scheme_def Let_def ascii_alpha_def scheme_chars_def l)
  show ?thesis
    unfolding numbered_url_def urlparse_def d f Let_def s by (simp add: splitnetloc_def)
qed

lemma ensure_numbered: "ensure_valid_url urlparse (numbered_url n) = Inr (numbered_url n)"
proof -
  have h: "host_of \<lparr>scheme = ''https'', netloc = ''tiktok.com''\<rparr> = ''tiktok.com''"
    by code_simp
  have a: "host_allowed ''tiktok.com''" by code_simp
  show ?thesis
    unfolding ensure_valid_url_def urlparse_numbered
    using h a by (simp add: Let_def host_of_def)
qed

lemma entries_numbered: "entries (numbered_urls k) = numbered_urls k"
  unfolding entries_def numbered_urls_def
  by (simp add: strip_numbered numbered_url_nonempty comp_def)

lemma card_numbered: "card (set (numbered_urls k)) = k"
proof -
  have "distinct (numbered_urls k)"
    unfolding numbered_urls_def using inj_numbered_url by (simp add: distinct_map inj_on_def)
  then show ?thesis using distinct_card[of "numbered_urls k"] by (simp add: numbered_urls_def)
qed

theorem validate_urls_too_many_iff_witness:
  "list_all (\<lambda>u. ensure_valid_url urlparse u = Inr u) (entries (numbered_urls 101))
   \<and> length (numbered_urls 101) = 101
   \<and> validate_urls urlparse (numbered_urls 101) = Inl (ValueError TooManyUrlsMsg)
   \<and> validate_urls urlparse (numbered_urls 100) = Inr (first_seen (entries (numbered_urls 100)))"
proof -
  have v: "\<forall>u \<in> set (entries (numbered_urls k)). ensure_valid_url urlparse u = Inr u" for k
  proof
    fix u assume "u \<in> set (entries (numbered_urls k))"
    then have "u \<in> set (numbered_urls k)" unfolding entries_numbered .
    then obtain n where "u = numbered_url n" by (auto simp: numbered_urls_def)
    then show "ensure_valid_url urlparse u = Inr u" by (simp add: ensure_numbered)
  qed
  have c: "card (set (entries (numbered_urls k))) = k" for k
    unfolding entries_numbered by (rule card_numbered)
  have ne: "entries (numbered_urls 100) \<noteq> []"
    unfolding entries_numbered by (simp add: numbered_urls_def)
  have len: "length (numbered_urls 101) = 101" by (simp add: numbered_urls_def)
  show ?thesis
    using validate_urls_too_many_iff[OF v[of 101]] validate_urls_too_many_iff[OF v[of 100]]
          v[of 101] c[of 101] c[of 100] ne len
    by (simp add: MAX_URLS_def list_all_iff)
qed

























section \<open>Properties of the job runner\<close>

lemma length_outcomes: "length (outcomes dl urls w) = length urls"
  by (induction urls arbitrary: w) (auto split: prod.splits)

lemma successes_failures:
  "length rs = length urls \<Longrightarrow> successes rs + length (failures urls rs) = length urls"
proof (induction urls rs rule: failures.induct)
  case (1 url urls exc rs) then show ?case by (simp add: successes_def)
next
  case (2 url urls rs) then show ?case by (simp add: successes_def)
qed (simp_all add: successes_def)

lemma map_fst_failures: "set (map fst (failures urls rs)) \<subseteq> set urls"
  by (induction urls rs rule: failures.induct) auto

lemma fetch_loop_completes:
  "only_Exceptions (outcomes dl urls w) \<Longrightarrow>
     fetch_loop dl urls s w =
       (Inr (s\<lparr>success := success s + successes (outcomes dl urls w),
               failed := failed s @ failures urls (outcomes dl urls w)\<rparr>),
        world_after dl urls w)"
proof (induction urls arbitrary: s w)
  case Nil
  then show ?case by (simp add: successes_def)
next
  case (Cons url urls)
  obtain r w' where d: "dl url w = (r, w')" by (cases "dl url w")
  have rest: "only_Exceptions (outcomes dl urls w')"
    using Cons.prems d by (simp add: only_Exceptions_def)
  show ?case
  proof (cases r)
    case None
    show ?thesis
      using d None Cons.IH[OF rest, of "s\<lparr>success := success s + 1\<rparr>"]
      by (simp add: successes_def)
  next
    case (Some exc)
    then have ex: "is_Exception exc" using Cons.prems d by (simp add: only_Exceptions_def)
    show ?thesis
      using d Some ex Cons.IH[OF rest, of "s\<lparr>failed := failed s @ [(url, str_exc exc)]\<rparr>"]
      by (cases exc) (simp_all add: successes_def)
  qed
qed

lemma fetch_loop_aborts:
  "\<not> only_Exceptions (outcomes dl urls w) \<Longrightarrow>
     \<exists>exc w'. fetch_loop dl urls s w = (Inl exc, w') \<and> \<not> is_Exception exc"
proof (induction urls arbitrary: s w)
  case Nil
  then show ?case by (simp add: only_Exceptions_def)
next
  case (Cons url urls)
  obtain r w' where d: "dl url w = (r, w')" by (cases "dl url w")
  show ?case
  proof (cases r)
    case None
    then have "\<not> only_Exceptions (outcomes dl urls w')"
      using Cons.prems d by (simp add: only_Exceptions_def)
    from Cons.IH[OF this, of "s\<lparr>success := success s + 1\<rparr>"] show ?thesis
      using d None by simp
  next
    case (Some exc)
    show ?thesis
    proof (cases "is_Exception exc")
      case True
      then have "\<not> only_Exceptions (outcomes dl urls w')"
        using Cons.prems d Some by (simp add: only_Exceptions_def)
      from Cons.IH[OF this, of "s\<lparr>failed := failed s @ [(url, str_exc exc)]\<rparr>"] show ?thesis
        using d Some True by (cases exc) simp_all
    next
      case False
      then show ?thesis using d Some by (cases exc) simp_all
    qed
  qed
qed

lemma fetch_loop_Inr:
  assumes "fetch_loop dl urls s w = (Inr s', w')"
  shows "only_Exceptions (outcomes dl urls w)
       \<and> s' = s\<lparr>success := success s + successes (outcomes dl urls w),
                 failed := failed s @ failures urls (outcomes dl urls w)\<rparr>
       \<and> w' = world_after dl urls w"
proof -
  have oe: "only_Exceptions (outcomes dl urls w)"
    using fetch_loop_aborts[of dl urls w s] assms by auto
  show ?thesis using fetch_loop_completes[OF oe, of s] assms oe by simp
qed

lemma all_failed_only_Exceptions: "all_failed rs \<Longrightarrow> only_Exceptions rs"
  by (induction rs) (auto simp: all_failed_def only_Exceptions_def split: option.splits)

lemma run_download_job_Inr:
  assumes "fst (run_download_job e urls w0) = Inr (zip_path, summ, work_dir)"
  shows "only_Exceptions (outcomes (download e) urls (fresh w0))
       \<and> summ = \<lparr>job_id = uuid_hex e, total = length urls,
                  success = successes (outcomes (download e) urls (fresh w0)),
                  failed = failures urls (outcomes (download e) urls (fresh w0)),
                  generated_at = now_iso e\<rparr>
       \<and> zip_path = zip_file_path e \<and> work_dir = work_dir_path e
       \<and> \<not> no_regular_file (files (world_after (download e) urls (fresh w0)))"
proof -
  let ?s0 = "\<lparr>job_id = uuid_hex e, total = length urls, success = 0, failed = [],
               generated_at = now_iso e\<rparr>"
  obtain r w where fl: "fetch_loop (download e) urls ?s0 (fresh w0) = (r, w)"
    by (cases "fetch_loop (download e) urls ?s0 (fresh w0)")
  show ?thesis
  proof (cases r)
    case (Inl exc)
    then show ?thesis using assms fl by (simp add: run_download_job_def fresh_def)
  next
    case (Inr s')
    note ch = fetch_loop_Inr[OF fl[unfolded Inr]]
    have nf: "no_regular_file fs \<longleftrightarrow> filter (\<lambda>(name, n). is_file n) fs = []" for fs
    proof (induction fs)
      case Nil then show ?case by (simp add: no_regular_file_def)
    next
      case (Cons a fs)
      obtain name n where a: "a = (name, n)" by (cases a)
      show ?case using Cons unfolding a by (cases n) (simp_all add: no_regular_file_def)
    qed
    show ?thesis
      using assms fl Inr ch
      by (auto simp: run_download_job_def fresh_def Let_def nf split: if_splits prod.splits option.splits)
  qed
qed

text \<open>
  Claim C1. Whenever \<open>_run_download_job\<close> returns, the summary it returns has
  \<open>success + len(failed) = total = len(urls)\<close>, and every URL is accounted for once:
  \<open>success\<close> counts the fetches that returned and \<open>failed\<close> holds one entry, with the URL and
  the message, for each fetch that raised, in input order.
\<close>
theorem run_download_job_accounts_for_every_url:
  assumes "fst (run_download_job e urls w0) = Inr (zip_path, summ, work_dir)"
  shows "success summ + length (failed summ) = total summ
       \<and> total summ = length urls
       \<and> length (outcomes (download e) urls (fresh w0)) = length urls
       \<and> success summ = successes (outcomes (download e) urls (fresh w0))
       \<and> failed summ = failures urls (outcomes (download e) urls (fresh w0))"
proof -
  note r = run_download_job_Inr[OF assms]
  have l: "length (outcomes (download e) urls (fresh w0)) = length urls"
    by (rule length_outcomes)
  show ?thesis using r l successes_failures[OF l] by simp
qed

theorem run_download_job_accounts_for_every_url_witness:
  "fst (run_download_job (example_env mixed_script) three_urls empty_world)
     = Inr (''/tmp/tiktok_dl_x1.zip'',
            \<lparr>job_id = ''0f3a'', total = 3, success = 2,
             failed = [(''https://tiktok.com/2'', Text ''HTTP Error 404'')],
             generated_at = ''2024-01-01T00:00:00+00:00''\<rparr>,
            ''/tmp/tiktok_dl_x1'')
   \<and> (2::nat) + length [(''https://tiktok.com/2'', Text ''HTTP Error 404'')] = 3
   \<and> length three_urls = 3"
proof -
  have h: "fst (run_download_job (example_env mixed_script) three_urls empty_world)
     = Inr (''/tmp/tiktok_dl_x1.zip'',
            \<lparr>job_id = ''0f3a'', total = 3, success = 2,
             failed = [(''https://tiktok.com/2'', Text ''HTTP Error 404'')],
             generated_at = ''2024-01-01T00:00:00+00:00''\<rparr>,
            ''/tmp/tiktok_dl_x1'')"
    by code_simp
  from run_download_job_accounts_for_every_url[OF h]
  have "success \<lparr>job_id = ''0f3a'', total = 3, success = 2,
             failed = [(''https://tiktok.com/2'', Text ''HTTP Error 404'')],
             generated_at = ''2024-01-01T00:00:00+00:00''\<rparr>
        + length (failed \<lparr>job_id = ''0f3a'', total = 3, success = 2,
             failed = [(''https://tiktok.com/2'', Text ''HTTP Error 404'')],
             generated_at = ''2024-01-01T00:00:00+00:00''\<rparr>)
        = total \<lparr>job_id = ''0f3a'', total = 3, success = 2,
             failed = [(''https://tiktok.com/2'', Text ''HTTP Error 404'')],
             generated_at = ''2024-01-01T00:00:00+00:00''\<rparr>"
    by (rule conjunct1)
  then show ?thesis using h by (simp add: three_urls_def)
qed

text \<open>
  Claim C6. When the fetcher raises nothing but \<open>Exception\<close>s (\<open>DownloadError\<close> or any
  other), the loop runs over every URL and returns the summary: each failure is appended
  to \<open>failed\<close> with its URL and message, and the loop goes on with the next URL in the
  world the failed fetch left.
\<close>
theorem fetch_loop_isolates_failures:
  assumes "only_Exceptions (outcomes dl urls w)"
  shows "fetch_loop dl urls s w =
           (Inr (s\<lparr>success := success s + successes (outcomes dl urls w),
                   failed := failed s @ failures urls (outcomes dl urls w)\<rparr>),
            world_after dl urls w)
       \<and> length (outcomes dl urls w) = length urls
       \<and> (\<forall>url exc w'. dl url w = (Some exc, w') \<and> is_Exception exc \<longrightarrow>
             fetch_loop dl (url # urls) s w =
               fetch_loop dl urls (s\<lparr>failed := failed s @ [(url, str_exc exc)]\<rparr>) w')"
proof -
  have step: "fetch_loop dl (url # urls) s w =
               fetch_loop dl urls (s\<lparr>failed := failed s @ [(url, str_exc exc)]\<rparr>) w'"
    if "dl url w = (Some exc, w')" "is_Exception exc" for url exc w'
    using that by (cases exc) simp_all
  show ?thesis
    using fetch_loop_completes[OF assms, of s] length_outcomes[of dl urls w] step by blast
qed

theorem fetch_loop_isolates_failures_witness:
  "only_Exceptions (outcomes (scripted_download failing_script) three_urls empty_world)
   \<and> fst (fetch_loop (scripted_download failing_script) three_urls
            \<lparr>job_id = ''0f3a'', total = 3, success = 0, failed = [], generated_at = ''t''\<rparr>
            empty_world)
     = Inr \<lparr>job_id = ''0f3a'', total = 3, success = 1,
            failed = [(''https://tiktok.com/1'', Text ''HTTP Error 404''),
                      (''https://tiktok.com/2'', Text ''KeyError'')],
            generated_at = ''t''\<rparr>"
proof -
  have h: "only_Exceptions (outcomes (scripted_download failing_script) three_urls empty_world)"
    by code_simp
  have o: "outcomes (scripted_download failing_script) three_urls empty_world
             = [Some (DownloadError (Text ''HTTP Error 404'')), Some (OtherException (Text ''KeyError'')), None]"
    by code_simp
  have u: "three_urls = [''https://tiktok.com/1'', ''https://tiktok.com/2'', ''https://tiktok.com/3'']"
    by (simp add: three_urls_def)
  show ?thesis
    using fetch_loop_isolates_failures[OF h,
            of "\<lparr>job_id = ''0f3a'', total = 3, success = 0, failed = [], generated_at = ''t''\<rparr>"] h
    unfolding o by (simp add: successes_def u)
qed

lemma no_regular_file_filter:
  "no_regular_file fs \<longleftrightarrow> filter (\<lambda>(name, n). is_file n) fs = []"
proof (induction fs)
  case Nil then show ?case by (simp add: no_regular_file_def)
next
  case (Cons a fs)
  obtain name n where a: "a = (name, n)" by (cases a)
  show ?case using Cons unfolding a by (cases n) (simp_all add: no_regular_file_def)
qed

lemma run_download_job_after_loop:
  assumes "only_Exceptions (outcomes (download e) urls (fresh w0))"
  shows "run_download_job e urls w0 =
     (let w = world_after (download e) urls (fresh w0);
          summ = \<lparr>job_id = uuid_hex e, total = length urls,
                  success = successes (outcomes (download e) urls (fresh w0)),
                  failed = failures urls (outcomes (download e) urls (fresh w0)),
                  generated_at = now_iso e\<rparr>
      in if no_regular_file (files w) then (Inl (RuntimeError DownloadFailedMsg), w)
         else (case write_report w of
                 (Some exc, w') \<Rightarrow> (Inl exc, w')
               | (None, w') \<Rightarrow> (Inr (zip_file_path e, summ, work_dir_path e), make_archive e w')))"
  using fetch_loop_completes[OF assms,
          of "\<lparr>job_id = uuid_hex e, total = length urls, success = 0, failed = [],
               generated_at = now_iso e\<rparr>"]
  by (simp add: run_download_job_def Let_def fresh_def[symmetric] no_regular_file_filter)

lemma write_report_cases:
  "write_report w = (Some exc, w') \<Longrightarrow> exc = OtherException (Text ''OSError'') \<and> w' = w"
  "write_report w = (None, w') \<Longrightarrow> w' = w\<lparr>files := AList.update REPORT_NAME File (files w)\<rparr>"
  by (auto simp: write_report_def split: option.splits node.splits)

text \<open>
  Claim C7, as stated, fails in its last part: a fetch that raises after it has written a
  file (a partial download) leaves a regular file in the working directory, so a batch in
  which every fetch fails is archived and returned.
\<close>
theorem all_fetches_fail_counterexample:
  "all_failed (outcomes (download (example_env partial_script)) [''https://tiktok.com/1'']
                 (fresh empty_world))
   \<and> fst (run_download_job (example_env partial_script) [''https://tiktok.com/1''] empty_world)
       = Inr (''/tmp/tiktok_dl_x1.zip'',
              \<lparr>job_id = ''0f3a'', total = 1, success = 0,
               failed = [(''https://tiktok.com/1'', Text ''timed out'')],
               generated_at = ''2024-01-01T00:00:00+00:00''\<rparr>,
              ''/tmp/tiktok_dl_x1'')
   \<and> response_body (fst (download_videos (example_env partial_script)
                             [''https://tiktok.com/1''] empty_world))
       = Some [(''1_ann.mp4.part'', File), (''download_report.json'', File)]"
  by code_simp

text \<open>
  Claim C7, amended. If the loop has run over every URL and the working directory then has
  no regular file, the job raises the \<open>RuntimeError\<close> of line 155, the endpoint answers
  with status 500 and that message, and no archive is made or returned, whatever the
  summary counts as successes. A batch in which every fetch fails ends this way when the
  failed fetches have left no regular file.
\<close>

theorem no_regular_file_fails_job:
  assumes "only_Exceptions (outcomes (download e) urls (fresh w0))"
    and "no_regular_file (files (world_after (download e) urls (fresh w0)))"
  shows "run_download_job e urls w0 =
           (Inl (RuntimeError DownloadFailedMsg), world_after (download e) urls (fresh w0))
       \<and> download_videos e urls w0 =
           (Inr (HTTPException 500 DownloadFailedMsg), [],
            world_after (download e) urls (fresh w0))
       \<and> response_body (fst (download_videos e urls w0)) = None"
proof -
  have r: "run_download_job e urls w0 =
           (Inl (RuntimeError DownloadFailedMsg), world_after (download e) urls (fresh w0))"
    using run_download_job_after_loop[OF assms(1)] assms(2) by (simp add: Let_def)
  then show ?thesis by (simp add: download_videos_def response_body_def)
qed

theorem no_regular_file_fails_job_witness:
  "only_Exceptions (outcomes (download (example_env nested_script)) [''https://tiktok.com/1'']
                      (fresh empty_world))
   \<and> successes (outcomes (download (example_env nested_script)) [''https://tiktok.com/1'']
                   (fresh empty_world)) = 1
   \<and> no_regular_file (files (world_after (download (example_env nested_script))
                                [''https://tiktok.com/1''] (fresh empty_world)))
   \<and> fst (download_videos (example_env nested_script) [''https://tiktok.com/1''] empty_world)
       = Inr (HTTPException 500 DownloadFailedMsg)
   \<and> all_failed (outcomes (download (example_env [])) [''https://tiktok.com/1'']
                    (fresh empty_world))
   \<and> fst (download_videos (example_env []) [''https://tiktok.com/1''] empty_world)
       = Inr (HTTPException 500 DownloadFailedMsg)"
proof -
  have a: "only_Exceptions (outcomes (download (example_env nested_script))
             [''https://tiktok.com/1''] (fresh empty_world))" by code_simp
  have b: "no_regular_file (files (world_after (download (example_env nested_script))
             [''https://tiktok.com/1''] (fresh empty_world)))" by code_simp
  have c: "successes (outcomes (download (example_env nested_script)) [''https://tiktok.com/1'']
                   (fresh empty_world)) = 1" by code_simp
  have d: "all_failed (outcomes (download (example_env [])) [''https://tiktok.com/1'']
                    (fresh empty_world))" by code_simp
  have e: "no_regular_file (files (world_after (download (example_env []))
             [''https://tiktok.com/1''] (fresh empty_world)))" by code_simp
  show ?thesis
    using no_regular_file_fails_job[OF a b]
          no_regular_file_fails_job[OF all_failed_only_Exceptions[OF d] e] a b c d
    by simp
qed

text \<open>
  Claim C10. After a loop that has run over every URL, the job raises the
  \<open>RuntimeError\<close> of line 155 exactly when no immediate child of the working directory is
  a regular file (what a subdirectory holds is not looked at); it then leaves the working
  directory as the loop left it, without a report. The report is written only on the
  other branch, after the check.
\<close>
theorem zero_files_check_top_level_before_report:
  assumes "only_Exceptions (outcomes (download e) urls (fresh w0))"
  shows "(fst (run_download_job e urls w0) = Inl (RuntimeError DownloadFailedMsg)
            \<longleftrightarrow> (\<forall>(name, n) \<in> set (files (world_after (download e) urls (fresh w0))). n \<noteq> File))
       \<and> (fst (run_download_job e urls w0) = Inl (RuntimeError DownloadFailedMsg)
            \<longrightarrow> snd (run_download_job e urls w0) = world_after (download e) urls (fresh w0))
       \<and> (\<forall>r. fst (run_download_job e urls w0) = Inr r
            \<longrightarrow> files (snd (run_download_job e urls w0))
                 = AList.update REPORT_NAME File (files (world_after (download e) urls (fresh w0))))"
proof -
  let ?w = "world_after (download e) urls (fresh w0)"
  have nf: "no_regular_file (files ?w) \<longleftrightarrow> (\<forall>(name, n) \<in> set (files ?w). n \<noteq> File)"
    by (auto simp: no_regular_file_def list_all_iff)
  note j = run_download_job_after_loop[OF assms]
  show ?thesis
  proof (cases "no_regular_file (files ?w)")
    case True
    then show ?thesis using j nf by (simp add: Let_def)
  next
    case False
    obtain x w' where wr: "write_report ?w = (x, w')" by (cases "write_report ?w")
    show ?thesis
    proof (cases x)
      case None
      then show ?thesis
        using j False nf wr write_report_cases(2)[of ?w w'] by (simp add: Let_def make_archive_def)
    next
      case (Some exc)
      then show ?thesis
        using j False nf wr write_report_cases(1)[of ?w exc w'] by (simp add: Let_def)
    qed
  qed
qed

theorem zero_files_check_top_level_before_report_witness:
  "only_Exceptions (outcomes (download (example_env nested_script)) [''https://tiktok.com/1'']
                      (fresh empty_world))
   \<and> files (world_after (download (example_env nested_script)) [''https://tiktok.com/1'']
               (fresh empty_world))
       = [(''sub'', Dir [(''1_ann.mp4'', File)]), (''pipe'', Other)]
   \<and> run_download_job (example_env nested_script) [''https://tiktok.com/1''] empty_world
       = (Inl (RuntimeError DownloadFailedMsg),
          \<lparr>net = (), files = [(''sub'', Dir [(''1_ann.mp4'', File)]), (''pipe'', Other)],
           archives = []\<rparr>)"
proof -
  have a: "only_Exceptions (outcomes (download (example_env nested_script))
             [''https://tiktok.com/1''] (fresh empty_world))" by code_simp
  have b: "world_after (download (example_env nested_script)) [''https://tiktok.com/1'']
               (fresh empty_world)
       = \<lparr>net = (), files = [(''sub'', Dir [(''1_ann.mp4'', File)]), (''pipe'', Other)],
           archives = []\<rparr>" by code_simp
  have c: "fst (run_download_job (example_env nested_script) [''https://tiktok.com/1''] empty_world)
             = Inl (RuntimeError DownloadFailedMsg)"
    using zero_files_check_top_level_before_report[OF a] unfolding b by simp
  then have "snd (run_download_job (example_env nested_script) [''https://tiktok.com/1''] empty_world)
       = \<lparr>net = (), files = [(''sub'', Dir [(''1_ann.mp4'', File)]), (''pipe'', Other)],
           archives = []\<rparr>"
    using zero_files_check_top_level_before_report[OF a] unfolding b by simp
  then show ?thesis using a b c by (simp add: prod_eq_iff)
qed

section \<open>Properties of the endpoint\<close>

lemma download_videos_success:
  assumes \<open>fst (download_videos e urls w0) = Inr (StreamingResponse headers body)\<close>
  shows \<open>\<exists>zip_path summ work_dir.
           fst (run_download_job e urls w0) = Inr (zip_path, summ, work_dir)
         \<and> headers =
             [(''Content-Disposition'',
                 ''attachment; filename="tiktok_videos_'' @ job_id summ @ ''.zip"''),
              (''X-Job-Id'', job_id summ),
              (''X-Download-Summary'',
                 json_dumps_counts [(''total'', total summ), (''success'', success summ),
                                    (''failed'', length (failed summ))])]\<close>
proof -
  obtain r w where j: "run_download_job e urls w0 = (r, w)" by (cases "run_download_job e urls w0")
  show ?thesis
  proof (cases r)
    case (Inl exc)
    then show ?thesis using assms j by (cases exc) (simp_all add: download_videos_def)
  next
    case (Inr t)
    obtain zip_path summ work_dir where t: "t = (zip_path, summ, work_dir)" by (cases t)
    show ?thesis using assms j Inr t by (simp add: download_videos_def Let_def)
  qed
qed

lemma json_dumps_counts_three:
  \<open>json_dumps_counts [(''total'', a), (''success'', b), (''failed'', c)] =
     ''{"total": '' @ str_nat a @ '', "success": '' @ str_nat b @ '', "failed": '' @ str_nat c @ ''}''\<close>
  by (simp add: json_dumps_counts_def)

text \<open>
  Claim C9, as stated, fails on the header value: \<open>json.dumps\<close> is called with its default
  separators, which put a space after every comma and every colon.
\<close>
theorem summary_header_compact_counterexample:
  \<open>response_header ''X-Download-Summary''
      (fst (download_videos (example_env mixed_script) three_urls empty_world))
     = Some ''{"total": 3, "success": 2, "failed": 1}''
   \<and> response_header ''X-Download-Summary''
      (fst (download_videos (example_env mixed_script) three_urls empty_world))
     \<noteq> Some ''{"total":3,"success":2,"failed":1}''\<close>
  by code_simp

text \<open>
  Claim C9, amended. On a successful job the endpoint answers with the streaming response
  whose header \<open>X-Download-Summary\<close> is the JSON object of \<open>total\<close>, \<open>success\<close> and
  \<open>failed\<close> in this order, written with one space after each colon and each comma, where
  \<open>failed\<close> is the length of the summary's failed list; the file name of
  \<open>Content-Disposition\<close> ends with an underscore, the job id and \<open>.zip\<close>; \<open>X-Job-Id\<close> is
  the job id; the body is the archive of the job.
\<close>
theorem download_videos_success_headers:
  assumes \<open>fst (run_download_job e urls w0) = Inr (zip_path, summ, work_dir)\<close>
  shows \<open>fst (download_videos e urls w0) =
           Inr (StreamingResponse
                  [(''Content-Disposition'',
                      ''attachment; filename="tiktok_videos_'' @ job_id summ @ ''.zip"''),
                   (''X-Job-Id'', job_id summ),
                   (''X-Download-Summary'',
                      ''{"total": '' @ str_nat (total summ)
                      @ '', "success": '' @ str_nat (success summ)
                      @ '', "failed": '' @ str_nat (length (failed summ)) @ ''}'')]
                  (map_of (archives (snd (run_download_job e urls w0))) zip_path))
         \<and> response_header ''X-Download-Summary'' (fst (download_videos e urls w0))
             = Some (''{"total": '' @ str_nat (total summ)
                     @ '', "success": '' @ str_nat (success summ)
                     @ '', "failed": '' @ str_nat (length (failed summ)) @ ''}'')
         \<and> response_header ''Content-Disposition'' (fst (download_videos e urls w0))
             = Some (''attachment; filename="tiktok_videos_'' @ job_id summ @ ''.zip"'')
         \<and> suffix (''_'' @ job_id summ @ ''.zip"'')
                  (''attachment; filename="tiktok_videos_'' @ job_id summ @ ''.zip"'')
         \<and> response_header ''X-Job-Id'' (fst (download_videos e urls w0)) = Some (job_id summ)
         \<and> job_id summ = uuid_hex e\<close>
proof -
  obtain r w where j: "run_download_job e urls w0 = (r, w)" by (cases "run_download_job e urls w0")
  have r: "r = Inr (zip_path, summ, work_dir)" using assms j by simp
  have d: \<open>fst (download_videos e urls w0) =
           Inr (StreamingResponse
                  [(''Content-Disposition'',
                      ''attachment; filename="tiktok_videos_'' @ job_id summ @ ''.zip"''),
                   (''X-Job-Id'', job_id summ),
                   (''X-Download-Summary'',
                      ''{"total": '' @ str_nat (total summ)
                      @ '', "success": '' @ str_nat (success summ)
                      @ '', "failed": '' @ str_nat (length (failed summ)) @ ''}'')]
                  (map_of (archives (snd (run_download_job e urls w0))) zip_path))\<close>
    unfolding json_dumps_counts_three[symmetric] using j r
    by (simp add: download_videos_def Let_def)
  have id: "job_id summ = uuid_hex e" using run_download_job_Inr[OF assms] by simp
  have sf: \<open>suffix (''_'' @ job_id summ @ ''.zip"'')
                  (''attachment; filename="tiktok_videos_'' @ job_id summ @ ''.zip"'')\<close>
    by (rule suffixI[where zs = \<open>''attachment; filename="tiktok_videos''\<close>]) simp
  have m: \<open>response_header ''X-Download-Summary'' (fst (download_videos e urls w0))
             = Some (''{"total": '' @ str_nat (total summ)
                     @ '', "success": '' @ str_nat (success summ)
                     @ '', "failed": '' @ str_nat (length (failed summ)) @ ''}'')\<close>
    unfolding d by (simp add: response_header_def)
  have c: \<open>response_header ''Content-Disposition'' (fst (download_videos e urls w0))
             = Some (''attachment; filename="tiktok_videos_'' @ job_id summ @ ''.zip"'')\<close>
    unfolding d by (simp add: response_header_def)
  have x: \<open>response_header ''X-Job-Id'' (fst (download_videos e urls w0)) = Some (job_id summ)\<close>
    unfolding d by (simp add: response_header_def)
  show ?thesis using d m c sf x id by blast
qed

theorem download_videos_success_headers_witness:
  \<open>fst (run_download_job (example_env mixed_script) three_urls empty_world)
     = Inr (''/tmp/tiktok_dl_x1.zip'',
            \<lparr>job_id = ''0f3a'', total = 3, success = 2,
             failed = [(''https://tiktok.com/2'', Text ''HTTP Error 404'')],
             generated_at = ''2024-01-01T00:00:00+00:00''\<rparr>,
            ''/tmp/tiktok_dl_x1'')
   \<and> response_header ''X-Download-Summary''
      (fst (download_videos (example_env mixed_script) three_urls empty_world))
     = Some ''{"total": 3, "success": 2, "failed": 1}''
   \<and> response_header ''Content-Disposition''
      (fst (download_videos (example_env mixed_script) three_urls empty_world))
     = Some ''attachment; filename="tiktok_videos_0f3a.zip"''
   \<and> response_header ''X-Job-Id''
      (fst (download_videos (example_env mixed_script) three_urls empty_world))
     = Some ''0f3a''
   \<and> response_body (fst (download_videos (example_env mixed_script) three_urls empty_world))
     = Some [(''1_ann.mp4'', File), (''3_bob.mp4'', File), (''download_report.json'', File)]\<close>
proof -
  have j: \<open>fst (run_download_job (example_env mixed_script) three_urls empty_world)
     = Inr (''/tmp/tiktok_dl_x1.zip'',
            \<lparr>job_id = ''0f3a'', total = 3, success = 2,
             failed = [(''https://tiktok.com/2'', Text ''HTTP Error 404'')],
             generated_at = ''2024-01-01T00:00:00+00:00''\<rparr>,
            ''/tmp/tiktok_dl_x1'')\<close>
    by code_simp
  have a: \<open>map_of (archives (snd (run_download_job (example_env mixed_script) three_urls empty_world)))
              ''/tmp/tiktok_dl_x1.zip''
            = Some [(''1_ann.mp4'', File), (''3_bob.mp4'', File), (''download_report.json'', File)]\<close>
    by code_simp
  have n: \<open>str_nat 3 = ''3''\<close> \<open>str_nat 2 = ''2''\<close> \<open>str_nat (Suc 0) = ''1''\<close>
    by code_simp+
  note t = download_videos_success_headers[OF j]
  have b: \<open>response_body (fst (download_videos (example_env mixed_script) three_urls empty_world))
     = Some [(''1_ann.mp4'', File), (''3_bob.mp4'', File), (''download_report.json'', File)]\<close>
    using t unfolding a by (simp add: response_body_def)
  have m: \<open>response_header ''X-Download-Summary''
      (fst (download_videos (example_env mixed_script) three_urls empty_world))
     = Some ''{"total": 3, "success": 2, "failed": 1}''\<close>
    using t by (simp add: n response_header_def)
  have c: \<open>response_header ''Content-Disposition''
      (fst (download_videos (example_env mixed_script) three_urls empty_world))
     = Some ''attachment; filename="tiktok_videos_0f3a.zip"''\<close>
    using t by (simp add: response_header_def)
  have x: \<open>response_header ''X-Job-Id''
      (fst (download_videos (example_env mixed_script) three_urls empty_world))
     = Some ''0f3a''\<close>
    using t by (simp add: response_header_def)
  show ?thesis using j m c x b by blast
qed

section \<open>Properties of cleanup\<close>

lemma cleanup_one_only_Exception:
  assumes "ops_raise_only_Exceptions ops" and "cleanup_one ops path w = (Some exc, w')"
  shows "is_Exception exc"
proof -
  have a: "op_is_dir ops path w = Inl x \<Longrightarrow> is_Exception x" for x
    using assms(1) unfolding ops_raise_only_Exceptions_def by blast
  have b: "op_exists ops path w = Inl x \<Longrightarrow> is_Exception x" for x
    using assms(1) unfolding ops_raise_only_Exceptions_def by blast
  have c: "fst (op_rmtree ops path w) = Some x \<Longrightarrow> is_Exception x" for x
    using assms(1) unfolding ops_raise_only_Exceptions_def by blast
  have d: "fst (op_unlink ops path w) = Some x \<Longrightarrow> is_Exception x" for x
    using assms(1) unfolding ops_raise_only_Exceptions_def by blast
  show ?thesis
    using assms(2) a b c d
    by (auto simp: cleanup_one_def split: sum.splits bool.splits if_splits)
qed

lemma cleanup_paths_fold:
  assumes "ops_raise_only_Exceptions ops"
  shows "cleanup_paths ops paths w = (None, foldl (\<lambda>w p. snd (cleanup_one ops p w)) w paths)"
proof (induction paths arbitrary: w)
  case Nil
  then show ?case by simp
next
  case (Cons path paths)
  obtain r w' where c: "cleanup_one ops path w = (r, w')" by (cases "cleanup_one ops path w")
  show ?case
  proof (cases r)
    case None
    then show ?thesis using c Cons[of w'] by simp
  next
    case (Some exc)
    then have "is_Exception exc" using cleanup_one_only_Exception[OF assms] c by blast
    then show ?thesis using c Some Cons[of w'] by simp
  qed
qed

lemma simple_ops_only_Exceptions: "ops_raise_only_Exceptions simple_ops"
  by (auto simp: ops_raise_only_Exceptions_def simple_ops_def)

text \<open>
  Claim C8. Over a file system whose operations raise nothing but \<open>Exception\<close>s,
  \<open>_cleanup_paths\<close> returns without raising for every list of paths; a path is handled
  in the file system its predecessors left, whether they failed or not, so every path is
  attempted.
\<close>
theorem cleanup_paths_never_raises:
  assumes "ops_raise_only_Exceptions ops"
  shows "fst (cleanup_paths ops paths w) = None
       \<and> snd (cleanup_paths ops paths w) = foldl (\<lambda>w p. snd (cleanup_one ops p w)) w paths
       \<and> cleanup_paths ops (path # paths) w
           = cleanup_paths ops paths (snd (cleanup_one ops path w))"
proof -
  have "cleanup_paths ops (path # paths) w
           = cleanup_paths ops paths (snd (cleanup_one ops path w))"
    unfolding cleanup_paths_fold[OF assms] by simp
  then show ?thesis using cleanup_paths_fold[OF assms, of paths w] by simp
qed

theorem cleanup_paths_never_raises_witness:
  "fst (cleanup_one simple_ops ''/tmp/tiktok_dl_x1.zip'' example_fs)
     = Some (OtherException (Text ''PermissionError''))
   \<and> cleanup_paths simple_ops [''/tmp/tiktok_dl_x1.zip'', ''/tmp/tiktok_dl_x1''] example_fs
     = (None, \<lparr>nodes = [(''/tmp/tiktok_dl_x1.zip'', File), (''/tmp/other'', File)],
               locked = [''/tmp/tiktok_dl_x1.zip'']\<rparr>)"
proof -
  have a: "fst (cleanup_one simple_ops ''/tmp/tiktok_dl_x1.zip'' example_fs)
     = Some (OtherException (Text ''PermissionError''))"
    by code_simp
  have b: "foldl (\<lambda>w p. snd (cleanup_one simple_ops p w)) example_fs
             [''/tmp/tiktok_dl_x1.zip'', ''/tmp/tiktok_dl_x1'']
         = \<lparr>nodes = [(''/tmp/tiktok_dl_x1.zip'', File), (''/tmp/other'', File)],
               locked = [''/tmp/tiktok_dl_x1.zip'']\<rparr>"
    by code_simp
  show ?thesis
    using cleanup_paths_never_raises[OF simple_ops_only_Exceptions,
            of "[''/tmp/tiktok_dl_x1.zip'', ''/tmp/tiktok_dl_x1'']" example_fs] a
    unfolding b by (simp add: prod_eq_iff)
qed

end
